theory Spec2Isabelle
  imports Main
begin

section \<open>Values, errors and dictionaries\<close>

text \<open>
  The values \<^verbatim>\<open>json.load\<close> produces. JSON numbers are restricted to integers
  (floating point is not modelled). A JSON object keeps its members in file order, as a
  list of pairs; a later duplicate of a key overrides an earlier one when the object is
  turned into a dict.

  A \<open>string\<close> stands for a Python \<^verbatim>\<open>str\<close> in its UTF-8 encoding: an ASCII character
  is one \<open>char\<close> below 128, any other character is a sequence of \<open>char\<close>s from 128 on.
  Splitting at \<^verbatim>\<open>|\<close>, the test for \<^verbatim>\<open>|\<close> and the test for the suffix
  \<^verbatim>\<open>.tags\<close> give the same answers on the encoding as on the \<^verbatim>\<open>str\<close>.
\<close>

datatype jval =
    JNone
  | JBool bool
  | JInt int
  | JStr string
  | JList "jval list"
  | JDict "(string \<times> jval) list"

type_synonym jobject = "(string \<times> jval) list"

text \<open>A Python dict with string keys, such as \<^verbatim>\<open>self._tagset\<close>.\<close>

type_synonym tagset = "string \<rightharpoonup> jval"

text \<open>The exceptions the module raises or lets through.\<close>

datatype error =
    KeyError
  | ValueError
  | TypeError
  | AttributeError
  | IndexError
  | LookupError
  | NotImplementedError
  | OverflowError
  | OSError
  | RuntimeError
  | Exception

section \<open>What the module takes from outside\<close>

text \<open>
  The file system and the parts of the Python runtime that are not modelled:
  \<^item> \<open>resolve w self path\<close> is \<^verbatim>\<open>str((self._path.parent / path).resolve())\<close> for the
    loader at \<open>self\<close>, or the exception that it raises (an embedded NUL, a loop of
    symbolic links);
  \<^item> \<open>json_load w p\<close> is the array of objects that \<^verbatim>\<open>json.load\<close> returns for the
    file at \<open>p\<close>, or \<open>None\<close> when opening or parsing it raises; files whose JSON is
    not an array of objects are outside the model;
  \<^item> \<open>casefold_non_ascii w s\<close> is \<^verbatim>\<open>s.casefold()\<close> and \<open>int_non_ascii w s\<close> is
    \<^verbatim>\<open>int(s)\<close> (\<open>None\<close> for \<^verbatim>\<open>ValueError\<close>) for a string \<open>s\<close> that is not
    pure ASCII;
  \<^item> \<open>int_max_str_digits w\<close> is \<^verbatim>\<open>sys.get_int_max_str_digits()\<close>: 4300 by default,
    0 when the limit is switched off or the interpreter has none.
\<close>

record world =
  resolve :: "string \<Rightarrow> string \<Rightarrow> error + string"
  json_load :: "string \<Rightarrow> jobject list option"
  casefold_non_ascii :: "string \<Rightarrow> string"
  int_non_ascii :: "string \<Rightarrow> int option"
  int_max_str_digits :: nat

subsection \<open>String operations of the Python runtime\<close>

definition is_ascii :: "char \<Rightarrow> bool" where
  "is_ascii c = ((of_char c :: nat) < 128)"

text \<open>
  \<^verbatim>\<open>str.casefold\<close>: on ASCII text the letters A to Z are lowered and every other
  character stays; any other text is folded by the runtime.
\<close>

definition casefold_char :: "char \<Rightarrow> char" where
  "casefold_char c =
     (case map_of (zip ''ABCDEFGHIJKLMNOPQRSTUVWXYZ'' ''abcdefghijklmnopqrstuvwxyz'') c of
        None \<Rightarrow> c
      | Some l \<Rightarrow> l)"

definition casefold :: "world \<Rightarrow> string \<Rightarrow> string" where
  "casefold w s = (if list_all is_ascii s then map casefold_char s else casefold_non_ascii w s)"

text \<open>\<^verbatim>\<open>s.split(c)\<close> for a one-character separator: never the empty list.\<close>

primrec split_on :: "char \<Rightarrow> string \<Rightarrow> string list" where
  "split_on c [] = [[]]"
| "split_on c (x # xs) =
     (if x = c then [] # split_on c xs
      else (x # hd (split_on c xs)) # tl (split_on c xs))"

text \<open>\<^verbatim>\<open>s.endswith(suf)\<close>.\<close>

definition endswith :: "string \<Rightarrow> string \<Rightarrow> bool" where
  "endswith s suf = (length suf \<le> length s \<and> drop (length s - length suf) s = suf)"

text \<open>
  \<^verbatim>\<open>int(s)\<close> for a string, base ten. On ASCII text: the white space of C
  (characters 9 to 13 and 32) is stripped at both ends, one sign is allowed, and single
  underscores may separate digits; a literal of more than 640 digits is refused when it
  has more digits than a positive \<^verbatim>\<open>int_max_str_digits\<close>. Any other text is read by the
  runtime. \<open>None\<close> stands for the \<^verbatim>\<open>ValueError\<close>.
\<close>

definition is_space :: "char \<Rightarrow> bool" where
  "is_space c = (let n = (of_char c :: nat) in (9 \<le> n \<and> n \<le> 13) \<or> n = 32)"

definition is_digit :: "char \<Rightarrow> bool" where
  "is_digit c = (let n = (of_char c :: nat) in 48 \<le> n \<and> n \<le> 57)"

definition digit_val :: "char \<Rightarrow> int" where
  "digit_val c = int (of_char c - 48)"

definition strip :: "string \<Rightarrow> string" where
  "strip s = rev (dropWhile is_space (rev (dropWhile is_space s)))"

fun py_digits :: "int \<Rightarrow> string \<Rightarrow> int option" where
  "py_digits acc [] = Some acc"
| "py_digits acc [c] = (if is_digit c then Some (10 * acc + digit_val c) else None)"
| "py_digits acc (c # d # ds) =
     (if c = CHR ''_'' then
        (if is_digit d then py_digits (10 * acc + digit_val d) ds else None)
      else if is_digit c then py_digits (10 * acc + digit_val c) (d # ds)
      else None)"

definition py_number :: "nat \<Rightarrow> string \<Rightarrow> int option" where
  "py_number lim s =
     (case s of [] \<Rightarrow> None
      | c # cs \<Rightarrow>
          if is_digit c then
            (case py_digits (digit_val c) cs of
               None \<Rightarrow> None
             | Some i \<Rightarrow>
                 if 640 < length (filter is_digit s) \<and> 0 < lim \<and> lim < length (filter is_digit s)
                 then None else Some i)
          else None)"

definition py_int_ascii :: "nat \<Rightarrow> string \<Rightarrow> int option" where
  "py_int_ascii lim s =
     (case strip s of [] \<Rightarrow> None
      | c # cs \<Rightarrow>
          if c = CHR ''-'' then map_option uminus (py_number lim cs)
          else if c = CHR ''+'' then py_number lim cs
          else py_number lim (c # cs))"

definition py_int :: "world \<Rightarrow> string \<Rightarrow> int option" where
  "py_int w s =
     (if list_all is_ascii s then py_int_ascii (int_max_str_digits w) s else int_non_ascii w s)"

section \<open>MTagLoader\<close>

text \<open>The dict comprehension \<^verbatim>\<open>{k.casefold(): v for k, v in data.items()}\<close>.\<close>

definition casefold_keys :: "world \<Rightarrow> jobject \<Rightarrow> tagset" where
  "casefold_keys w data = foldl (\<lambda>m (k, v). m(casefold w k \<mapsto> v)) Map.empty data"

text \<open>
  \<^verbatim>\<open>_update\<close>: overlay the case-folded object on the tag set, then delete every
  key whose value equals \<^verbatim>\<open>[]\<close>. The result is the new \<^verbatim>\<open>self._tagset\<close>,
  and also the copy that the method returns.
\<close>

definition update_tagset :: "world \<Rightarrow> tagset \<Rightarrow> jobject \<Rightarrow> tagset" where
  "update_tagset w ts data =
     (let m = ts ++ casefold_keys w data
      in (\<lambda>k. if m k = Some (JList []) then None else m k))"

text \<open>
  The first lines of \<^verbatim>\<open>_resolve_path\<close>: the test for \<^verbatim>\<open>|\<close>, the two-way
  unpacking of the split (a \<^verbatim>\<open>ValueError\<close> outside the \<^verbatim>\<open>try\<close> when there
  are more than two parts) and the guarded \<^verbatim>\<open>int(sub)\<close>.
\<close>

definition split_ref :: "world \<Rightarrow> string \<Rightarrow> error + (string \<times> int option)" where
  "split_ref w path =
     (if CHR ''|'' \<in> set path then
        (case split_on CHR ''|'' path of
           [base, sub] \<Rightarrow>
             (case py_int w sub of
                None \<Rightarrow> Inl NotImplementedError
              | Some k \<Rightarrow> Inr (base, Some k))
         | _ \<Rightarrow> Inl ValueError)
      else Inr (path, None))"

text \<open>
  The \<^verbatim>\<open>try\<close> block of \<^verbatim>\<open>items\<close>: a file that cannot be opened or parsed
  counts as \<^verbatim>\<open>[]\<close>.
\<close>

definition load_objs :: "world \<Rightarrow> string \<Rightarrow> jobject list" where
  "load_objs w p = (case json_load w p of None \<Rightarrow> [] | Some obj \<Rightarrow> obj)"

text \<open>
  One iteration of \<^verbatim>\<open>items\<close> is an event: the pair it yields, a
  \<^verbatim>\<open>continue\<close>, the exception that ends the generator, or \<open>TooDeep\<close> when the
  resolution of the entry needs more nested loaders than the fuel allows (see below). A
  run of the generator is the list of its events; nothing follows \<open>Raise\<close> or
  \<open>TooDeep\<close>.
\<close>

datatype event = Yield string tagset | Skip | Raise error | TooDeep

text \<open>
  The loop \<^verbatim>\<open>for i, item in enumerate(resolver.items(), start=1)\<close> of
  \<^verbatim>\<open>_resolve_path\<close>: the path of the yielded pair number \<open>sub\<close>, the exception
  of the generator if it comes first, \<^verbatim>\<open>LookupError\<close> when the generator ends
  before, and \<open>None\<close> when the generator runs out of fuel before.
\<close>

fun find_entry :: "event list \<Rightarrow> int \<Rightarrow> int \<Rightarrow> (error + string) option" where
  "find_entry [] i sub = Some (Inl LookupError)"
| "find_entry (Yield r_path r_data # es) i sub =
     (if i = sub then Some (Inr r_path) else find_entry es (i + 1) sub)"
| "find_entry (Skip # es) i sub = find_entry es i sub"
| "find_entry (Raise e # es) i sub = Some (Inl e)"
| "find_entry (TooDeep # es) i sub = None"

text \<open>An \<^verbatim>\<open>@\<close> value that is not a string fails in \<^verbatim>\<open>_resolve_path\<close>.\<close>

fun ref_type_error :: "jval \<Rightarrow> error" where
  "ref_type_error (JList xs) = (if JStr ''|'' \<in> set xs then AttributeError else TypeError)"
| "ref_type_error (JDict kvs) = (if ''|'' \<in> fst ` set kvs then AttributeError else TypeError)"
| "ref_type_error v = TypeError"

text \<open>
  \<^verbatim>\<open>_resolve_path\<close> and the loop of \<^verbatim>\<open>items\<close>, with fuel: a chain of indexed
  references may be cyclic, and each nested loader costs one unit. \<open>None\<close> and
  \<open>TooDeep\<close> say that the chain is deeper than the fuel. CPython ends such a chain at
  its recursion limit with \<^verbatim>\<open>RecursionError\<close>, raised at whichever call crosses the
  limit (inside the \<^verbatim>\<open>try\<close> block of \<^verbatim>\<open>items\<close> it is taken for an unreadable
  file); the model does not follow a run beyond its fuel, and every property below is
  about runs that stay within it.
\<close>

fun resolve_path :: "nat \<Rightarrow> world \<Rightarrow> string \<Rightarrow> string \<Rightarrow> (error + string) option"
  and items_loop :: "nat \<Rightarrow> world \<Rightarrow> string \<Rightarrow> tagset \<Rightarrow> jobject list \<Rightarrow> event list"
where
  "resolve_path 0 w self path = None"
| "resolve_path (Suc n) w self path =
     (case split_ref w path of
        Inl e \<Rightarrow> Some (Inl e)
      | Inr (base, sub) \<Rightarrow>
          (case resolve w self base of
             Inl e \<Rightarrow> Some (Inl e)
           | Inr p \<Rightarrow>
               (case sub of
                  None \<Rightarrow> Some (Inr p)
                | Some k \<Rightarrow>
                    if endswith p ''.tags'' then
                      (case find_entry (items_loop n w p Map.empty (load_objs w p)) 1 k of
                         None \<Rightarrow> None
                       | Some (Inl e) \<Rightarrow> Some (Inl e)
                       | Some (Inr r_path) \<Rightarrow> resolve_path n w p r_path)
                    else Some (Inl Exception))))"
| "items_loop n w self ts [] = []"
| "items_loop n w self ts (item # rest) =
     (case update_tagset w ts item ''@'' of
        None \<Rightarrow> [Raise KeyError]
      | Some (JStr ref) \<Rightarrow>
          (case resolve_path n w self ref of
             None \<Rightarrow> [TooDeep]
           | Some (Inl e) \<Rightarrow>
               if e = NotImplementedError
               then Skip # items_loop n w self (update_tagset w ts item) rest
               else [Raise e]
           | Some (Inr path) \<Rightarrow>
               Yield path ((update_tagset w ts item)(''@'' := None))
                 # items_loop n w self (update_tagset w ts item) rest)
      | Some v \<Rightarrow> [Raise (ref_type_error v)])"

text \<open>\<^verbatim>\<open>items\<close>: load the file and loop, starting from the empty tag set.\<close>

definition items :: "nat \<Rightarrow> world \<Rightarrow> string \<Rightarrow> event list" where
  "items n w self = items_loop n w self Map.empty (load_objs w self)"

text \<open>The pairs a run yields, in order.\<close>

fun yielded :: "event list \<Rightarrow> (string \<times> tagset) list" where
  "yielded [] = []"
| "yielded (Yield p d # es) = (p, d) # yielded es"
| "yielded (Skip # es) = yielded es"
| "yielded (Raise e # es) = []"
| "yielded (TooDeep # es) = []"

section \<open>Converters\<close>

text \<open>
  \<^verbatim>\<open>datetime.date\<close> and its subclass \<^verbatim>\<open>MTagDate\<close>, which adds the flag
  \<^verbatim>\<open>_mtag_date\<close> (class default \<^verbatim>\<open>False\<close>).
\<close>

record date =
  year :: int
  month :: int
  day :: int

record MTagDate = date +
  mtag_date :: bool

text \<open>What a converter returns: a JSON value (\<^verbatim>\<open>None\<close> is \<open>PJ JNone\<close>) or a date.\<close>

datatype pyval = PJ jval | PMTagDate MTagDate | PDate date

text \<open>
  The constructor of \<^verbatim>\<open>datetime.date\<close>: an argument that does not fit a C
  \<^verbatim>\<open>int\<close> is an \<^verbatim>\<open>OverflowError\<close>, a date out of range a \<^verbatim>\<open>ValueError\<close>.
\<close>

definition c_int :: "int \<Rightarrow> bool" where
  "c_int i = (- 2147483648 \<le> i \<and> i \<le> 2147483647)"

definition is_leap :: "int \<Rightarrow> bool" where
  "is_leap y = (y mod 4 = 0 \<and> (y mod 100 \<noteq> 0 \<or> y mod 400 = 0))"

definition days_in_month :: "int \<Rightarrow> int \<Rightarrow> int" where
  "days_in_month y m =
     (if m = 2 then (if is_leap y then 29 else 28)
      else if m = 4 \<or> m = 6 \<or> m = 9 \<or> m = 11 then 30 else 31)"

definition valid_date :: "int \<Rightarrow> int \<Rightarrow> int \<Rightarrow> bool" where
  "valid_date y m d =
     (1 \<le> y \<and> y \<le> 9999 \<and> 1 \<le> m \<and> m \<le> 12 \<and> 1 \<le> d \<and> d \<le> days_in_month y m)"

definition date_args :: "int \<Rightarrow> int \<Rightarrow> int \<Rightarrow> error option" where
  "date_args y m d =
     (if \<not> (c_int y \<and> c_int m \<and> c_int d) then Some OverflowError
      else if \<not> valid_date y m d then Some ValueError
      else None)"

definition new_MTagDate :: "int \<Rightarrow> int \<Rightarrow> int \<Rightarrow> error + MTagDate" where
  "new_MTagDate y m d =
     (case date_args y m d of
        Some e \<Rightarrow> Inl e
      | None \<Rightarrow> Inr \<lparr>year = y, month = m, day = d, mtag_date = False\<rparr>)"

definition new_date :: "int \<Rightarrow> int \<Rightarrow> int \<Rightarrow> error + date" where
  "new_date y m d =
     (case date_args y m d of
        Some e \<Rightarrow> Inl e
      | None \<Rightarrow> Inr \<lparr>year = y, month = m, day = d\<rparr>)"

text \<open>\<^verbatim>\<open>int(data)\<close> for a JSON value.\<close>

fun int_of :: "world \<Rightarrow> jval \<Rightarrow> error + int" where
  "int_of w (JStr s) = (case py_int w s of None \<Rightarrow> Inl ValueError | Some i \<Rightarrow> Inr i)"
| "int_of w (JInt i) = Inr i"
| "int_of w (JBool b) = Inr (if b then 1 else 0)"
| "int_of w v = Inl TypeError"

text \<open>
  The converter classes. \<^verbatim>\<open>FloatConverter\<close> and \<^verbatim>\<open>DbConverter\<close> return
  floating-point numbers and are not modelled.
\<close>

datatype converter = Converter | IntConverter | ListConverter | BoolConverter | DateConverter

text \<open>
  \<^verbatim>\<open>DateConverter.decode\<close>. The parameter \<open>parse\<close> is
  \<^verbatim>\<open>dateutil.parser.parse\<close>, returning the year, month and day of its result.
  The \<^verbatim>\<open>except ValueError\<close> covers both \<^verbatim>\<open>int(data)\<close> and the constructor.
\<close>

definition decode_date ::
  "world \<Rightarrow> (jval \<Rightarrow> error + int \<times> int \<times> int) \<Rightarrow> jval \<Rightarrow> error + pyval" where
  "decode_date w parse data =
     (case (case int_of w data of Inl e \<Rightarrow> Inl e | Inr y \<Rightarrow> new_MTagDate y 1 1) of
        Inr v \<Rightarrow> Inr (PMTagDate v)
      | Inl e \<Rightarrow>
          if e = ValueError then
            (case parse data of
               Inl e' \<Rightarrow> Inl e'
             | Inr (y, m, d) \<Rightarrow>
                 (case new_MTagDate y m d of
                    Inl e' \<Rightarrow> Inl e'
                  | Inr v \<Rightarrow> Inr (PMTagDate (v\<lparr>mtag_date := True\<rparr>))))
          else Inl e)"

text \<open>The \<^verbatim>\<open>decode\<close> method of each class.\<close>

fun decode ::
  "world \<Rightarrow> (jval \<Rightarrow> error + int \<times> int \<times> int) \<Rightarrow> converter \<Rightarrow> jval \<Rightarrow> error + pyval" where
  "decode w parse Converter data = Inr (PJ data)"
| "decode w parse IntConverter data =
     (case int_of w data of Inl e \<Rightarrow> Inl e | Inr i \<Rightarrow> Inr (PJ (JInt i)))"
| "decode w parse ListConverter data =
     (case data of
        JList xs \<Rightarrow> (case xs of [] \<Rightarrow> Inl IndexError | x # _ \<Rightarrow> Inr (PJ x))
      | _ \<Rightarrow> Inr (PJ data))"
| "decode w parse BoolConverter data =
     (case data of
        JStr s \<Rightarrow> Inr (PJ (JBool (casefold w s \<notin> {[], ''0'', ''no'', ''false''})))
      | _ \<Rightarrow> Inl AttributeError)"
| "decode w parse DateConverter data = decode_date w parse data"

text \<open>
  \<^verbatim>\<open>Converter.get\<close>, shared by all classes: the first tag of \<^verbatim>\<open>self._tags\<close>
  that is a key of \<open>data\<close> is decoded; \<^verbatim>\<open>None\<close> when there is none.
\<close>

fun get :: "(jval \<Rightarrow> error + pyval) \<Rightarrow> string list \<Rightarrow> tagset \<Rightarrow> error + pyval" where
  "get dec [] data = Inr (PJ JNone)"
| "get dec (t # tags) data =
     (case data t of None \<Rightarrow> get dec tags data | Some v \<Rightarrow> dec v)"

text \<open>
  The table \<^verbatim>\<open>TAGS\<close>, without its four floating-point entries
  (\<^verbatim>\<open>rg_track_gain\<close>, \<^verbatim>\<open>rg_track_peak\<close>, \<^verbatim>\<open>rg_album_gain\<close>,
  \<^verbatim>\<open>rg_album_peak\<close>).
\<close>

definition TAGS :: "(string \<times> converter \<times> string list) list" where
  "TAGS =
    [(''title'', Converter, [''title'']),
     (''artist'', ListConverter, [''artist'']),
     (''album'', Converter, [''album'']),
     (''genre'', ListConverter, [''genres'', ''genre'']),
     (''lyricist'', Converter, [''lyricist'']),
     (''composer'', ListConverter, [''composer'']),
     (''composer_sort'', Converter, [''composersort'']),
     (''arranger'', Converter, [''arranger'']),
     (''grouping'', Converter, [''grouping'']),
     (''track'', IntConverter, [''track'', ''tracknumber'']),
     (''tracktotal'', IntConverter, [''tracktotal'', ''trackc'', ''totaltracks'']),
     (''disc'', IntConverter, [''disc'', ''discnumber'']),
     (''disctotal'', IntConverter, [''disctotal'', ''discc'', ''totaldiscs'']),
     (''lyrics'', Converter, [''lyrics'', ''unsyncedlyrics'']),
     (''comments'', Converter, [''description'', ''comment'']),
     (''bpm'', IntConverter, [''bpm'']),
     (''comp'', BoolConverter, [''compilation'']),
     (''albumartist'', Converter, [''albumartist'', ''album artist'']),
     (''albumtype'', Converter, [''musicbrainz_albumtype'']),
     (''label'', ListConverter, [''label'', ''publisher'']),
     (''artist_sort'', Converter, [''artistsort'']),
     (''albumartist_sort'', Converter, [''albumartistsort'']),
     (''asin'', Converter, [''asin'']),
     (''catalognum'', Converter, [''catalognumber'']),
     (''disctitle'', Converter, [''discsubtitle'']),
     (''encoder'', Converter, [''encodedby'', ''encoder'']),
     (''script'', Converter, [''script'']),
     (''language'', Converter, [''language'']),
     (''country'', Converter, [''releasecountry'']),
     (''albumstatus'', Converter, [''musicbrainz_albumstatus'']),
     (''media'', Converter, [''media'']),
     (''albumdisambig'', Converter, [''musicbrainz_albumcomment'']),
     (''date'', DateConverter, [''date'', ''year'']),
     (''original_date'', DateConverter, [''originaldate'']),
     (''artist_credit'', Converter, [''artist_credit'']),
     (''albumartist_credit'', Converter, [''albumartist_credit'']),
     (''mb_trackid'', Converter, [''musicbrainz_trackid'']),
     (''mb_releasetrackid'', Converter, [''musicbrainz_releasetrackid'']),
     (''mb_albumid'', Converter, [''musicbrainz_albumid'']),
     (''mb_artistid'', Converter, [''musicbrainz_artistid'']),
     (''mb_albumartistid'', Converter, [''musicbrainz_albumartistid'']),
     (''mb_releasegroupid'', Converter, [''musicbrainz_releasegroupid'']),
     (''acoustid_fingerprint'', Converter, [''acoustid_fingerprint'']),
     (''acoustid_id'', Converter, [''acoustid_id'']),
     (''r128_track_gain'', IntConverter, [''r128_track_gain'']),
     (''r128_album_gain'', IntConverter, [''r128_album_gain'']),
     (''initial_key'', Converter, [''initialkey''])]"

text \<open>\<^verbatim>\<open>TAGS[name].get(data)\<close>, for a name of the table.\<close>

definition tag_get ::
  "world \<Rightarrow> (jval \<Rightarrow> error + int \<times> int \<times> int) \<Rightarrow> string \<Rightarrow> tagset \<Rightarrow>
     (error + pyval) option" where
  "tag_get w parse name data =
     (case map_of TAGS name of
        None \<Rightarrow> None
      | Some (c, tags) \<Rightarrow> Some (get (decode w parse c) tags data))"

subsection \<open>Dependent converters\<close>

datatype dependent = Year | Month | Day | DateHack

text \<open>
  The \<^verbatim>\<open>transform\<close> methods. A value that is not an \<^verbatim>\<open>MTagDate\<close> has no
  attribute \<^verbatim>\<open>_mtag_date\<close>; a JSON value has no \<^verbatim>\<open>year\<close> either.
\<close>

fun transform :: "dependent \<Rightarrow> pyval \<Rightarrow> error + pyval" where
  "transform Year (PMTagDate v) = Inr (PJ (JInt (year v)))"
| "transform Year (PDate v) = Inr (PJ (JInt (year v)))"
| "transform Month (PMTagDate v) = Inr (PJ (if mtag_date v then JInt (month v) else JNone))"
| "transform Day (PMTagDate v) = Inr (PJ (if mtag_date v then JInt (day v) else JNone))"
| "transform DateHack (PMTagDate v) =
     (case new_date (year v) (month v) (day v) of Inl e \<Rightarrow> Inl e | Inr d \<Rightarrow> Inr (PDate d))"
| "transform DateHack (PDate v) =
     (case new_date (year v) (month v) (day v) of Inl e \<Rightarrow> Inl e | Inr d \<Rightarrow> Inr (PDate d))"
| "transform t v = Inl AttributeError"

text \<open>
  \<^verbatim>\<open>DependentConverter.get\<close>: a missing key of \<open>context\<close> is caught
  (\<^verbatim>\<open>KeyError\<close> is a \<^verbatim>\<open>LookupError\<close>) and gives \<^verbatim>\<open>None\<close>.
\<close>

definition dependent_get :: "dependent \<Rightarrow> string \<Rightarrow> (string \<rightharpoonup> pyval) \<Rightarrow> error + pyval" where
  "dependent_get t dep context =
     (case context dep of None \<Rightarrow> Inr (PJ JNone) | Some v \<Rightarrow> transform t v)"

definition DEPENDENT_TAGS :: "(string \<times> dependent \<times> string) list" where
  "DEPENDENT_TAGS =
    [(''year'', Year, ''date''),
     (''month'', Month, ''date''),
     (''day'', Day, ''date''),
     (''original_year'', Year, ''original_date''),
     (''original_month'', Month, ''original_date''),
     (''original_day'', Day, ''original_date''),
     (''date'', DateHack, ''date''),
     (''original_date'', DateHack, ''original_date'')]"

text \<open>\<^verbatim>\<open>DEPENDENT_TAGS[name].get(data, context)\<close>, for a name of the table.\<close>

definition dependent_tag_get :: "string \<Rightarrow> (string \<rightharpoonup> pyval) \<Rightarrow> (error + pyval) option" where
  "dependent_tag_get name context =
     (case map_of DEPENDENT_TAGS name of
        None \<Rightarrow> None
      | Some (t, dep) \<Rightarrow> Some (dependent_get t dep context))"

section \<open>An example tree\<close>

text \<open>
  Two directories, \<^verbatim>\<open>/m\<close> and \<^verbatim>\<open>/m|x\<close>, without symbolic links or dot segments,
  where resolving a path joins it to the directory of the loader's file unless it is
  absolute, under a runtime with the default limit on the digits of an integer.
\<close>

definition dirname :: "string \<Rightarrow> string" where
  "dirname p = rev (tl (dropWhile (\<lambda>c. c \<noteq> CHR ''/'') (rev p)))"

definition join_path :: "string \<Rightarrow> string \<Rightarrow> string" where
  "join_path self path =
     (case path of
        [] \<Rightarrow> dirname self
      | c # cs \<Rightarrow> if c = CHR ''/'' then path else dirname self @ ''/'' @ path)"

definition example_files :: "(string \<times> jobject list) list" where
  "example_files =
    [(''/m/a.tags'',
        [[(''@'', JStr ''t1.flac''), (''track'', JStr ''1''), (''Genre'', JList [JStr ''rock''])],
         [(''@'', JStr ''x.zip|song'')],
         [(''@'', JStr ''t2.flac''), (''genre'', JList [])]]),
     (''/m/c.tags'', [[(''genre'', JStr ''pop'')], [(''@'', JStr ''t.flac'')]]),
     (''/m/d.tags'', [[(''@'', JStr ''x.flac|1'')], [(''@'', JStr ''y.flac'')]]),
     (''/m/f.tags'', [[(''@'', JStr ''a.tags|7'')], [(''@'', JStr ''t.flac'')]]),
     (''/m/g.tags'', [[(''@'', JStr ''a|b|c'')], [(''@'', JStr ''t.flac'')]]),
     (''/m/h.tags'', [[(''@'', JStr ''t1.flac'')], [(''title'', JStr ''two'')]]),
     (''/m/k.tags'',
        [[(''@'', JStr ''a.flac''), (''Track'', JStr ''1''), (''genre'', JList [JStr ''rock''])],
         [(''@'', JStr ''b.flac''), (''Genre'', JList [])]]),
     (''/m/n.tags'', [[(''@'', JStr ''g.tags|1'')], [(''@'', JStr ''t.flac'')]]),
     (''/m|x/a.tags'', [[(''@'', JStr ''t.flac'')]]),
     (''/m|x/b.tags'', [[(''@'', JStr ''a.tags|1'')], [(''@'', JStr ''u.flac'')]])]"

definition example_world :: world where
  "example_world =
     \<lparr>resolve = (\<lambda>self path. Inr (join_path self path)),
      json_load = map_of example_files,
      casefold_non_ascii = (\<lambda>s. s),
      int_non_ascii = (\<lambda>s. None),
      int_max_str_digits = 4300\<rparr>"

text \<open>A stand-in for \<^verbatim>\<open>dateutil.parser.parse\<close> that knows one ISO date.\<close>

definition example_parse :: "jval \<Rightarrow> error + int \<times> int \<times> int" where
  "example_parse v = (if v = JStr ''1999-05-03'' then Inr (1999, 5, 3) else Inl ValueError)"

section \<open>Properties of the string operations\<close>

lemma split_on_not_Nil: "split_on c s \<noteq> []"
  by (induction s) auto

lemma length_split_on: "length (split_on c s) = Suc (length (filter (\<lambda>x. x = c) s))"
  by (induction s) (auto simp: split_on_not_Nil)

lemma three_or_more: "3 \<le> length xs \<Longrightarrow> \<exists>a b c r. xs = a # b # c # r"
  by (cases xs; cases "tl xs"; cases "tl (tl xs)") auto

lemma separator_in_set: "0 < length (filter (\<lambda>x. x = c) s) \<Longrightarrow> c \<in> set s"
  by (induction s) (auto split: if_splits)

lemma split_ref_many:
  assumes "2 \<le> length (filter (\<lambda>x. x = CHR ''|'') path)"
  shows "split_ref w path = Inl ValueError"
proof -
  from assms have "0 < length (filter (\<lambda>x. x = CHR ''|'') path)" by linarith
  then have m: "CHR ''|'' \<in> set path" by (rule separator_in_set)
  from assms have "3 \<le> length (split_on CHR ''|'' path)" by (simp add: length_split_on)
  then obtain a b c r where "split_on CHR ''|'' path = a # b # c # r"
    using three_or_more by blast
  with m show ?thesis by (simp add: split_ref_def)
qed

lemma two_parts: "length xs = 2 \<Longrightarrow> xs = [xs ! 0, xs ! 1]"
  by (cases xs; cases "tl xs") auto

lemma split_ref_one_separator:
  assumes "length (filter (\<lambda>x. x = CHR ''|'') path) = 1"
  shows "split_ref w path =
    (case py_int w (split_on CHR ''|'' path ! 1) of
       None \<Rightarrow> Inl NotImplementedError
     | Some k \<Rightarrow> Inr (split_on CHR ''|'' path ! 0, Some k))"
proof -
  from assms have "0 < length (filter (\<lambda>x. x = CHR ''|'') path)" by linarith
  then have m: "CHR ''|'' \<in> set path" by (rule separator_in_set)
  from assms have "length (split_on CHR ''|'' path) = 2" by (simp add: length_split_on)
  then have "split_on CHR ''|'' path = [split_on CHR ''|'' path ! 0, split_on CHR ''|'' path ! 1]"
    by (rule two_parts)
  then obtain a b where ab: "split_on CHR ''|'' path = [a, b]" by blast
  with m show ?thesis by (simp add: split_ref_def split: option.splits)
qed

text \<open>The definitions to unfold when a run of the example tree is evaluated.\<close>

lemmas example_simps =
  example_world_def example_files_def join_path_def dirname_def items_def load_objs_def
  split_ref_def py_int_def py_int_ascii_def py_number_def strip_def is_space_def is_digit_def
  digit_val_def is_ascii_def endswith_def update_tagset_def casefold_keys_def casefold_def
  casefold_char_def

section \<open>References with more than one separator\<close>

text \<open>
  Claim C9. A reference with two or more \<^verbatim>\<open>|\<close> characters makes the two-way
  unpacking of \<^verbatim>\<open>path.split('|')\<close> raise \<^verbatim>\<open>ValueError\<close>, outside the guarded
  \<^verbatim>\<open>int(sub)\<close>. This is not \<^verbatim>\<open>NotImplementedError\<close>, so \<^verbatim>\<open>items\<close> does not
  catch it: for an entry whose reference it is (\<open>ts\<close> is the tag set accumulated before
  the entry), the run ends with the exception, no pair is yielded for the entry, and the
  remaining entries \<open>rest\<close> are not processed.
\<close>

theorem two_separators_value_error:
  "2 \<le> length (filter (\<lambda>x. x = CHR ''|'') path) \<Longrightarrow>
   resolve_path (Suc n) w self path = Some (Inl ValueError) \<and>
   (update_tagset w ts item ''@'' = Some (JStr path) \<longrightarrow>
      items_loop (Suc n) w self ts (item # rest) = [Raise ValueError])"
  using split_ref_many [of path w] by simp

theorem two_separators_value_error_witness:
  "resolve_path (Suc 0) example_world ''/m/g.tags'' ''a|b|c'' = Some (Inl ValueError) \<and>
   items (Suc 0) example_world ''/m/g.tags'' = [Raise ValueError]"
  using two_separators_value_error [of "''a|b|c''" 0 example_world "''/m/g.tags''" Map.empty
      "[(''@'', JStr ''a|b|c'')]" "[[(''@'', JStr ''t.flac'')]]"]
  by (simp add: example_simps)

section \<open>References whose index is not an integer\<close>

text \<open>
  Claim C4. A reference with exactly one \<^verbatim>\<open>|\<close> whose right-hand part is not accepted
  by \<^verbatim>\<open>int\<close> makes \<^verbatim>\<open>_resolve_path\<close> raise \<^verbatim>\<open>NotImplementedError\<close>.
  \<^verbatim>\<open>items\<close> catches it: for an entry with this reference (\<open>ts\<close> is the tag set
  accumulated before the entry) the only effect is a \<^verbatim>\<open>continue\<close>; the run goes on
  with the remaining entries \<open>rest\<close> from the updated tag set, and yields exactly what
  they yield.
\<close>

theorem non_integer_index_skipped:
  "length (filter (\<lambda>x. x = CHR ''|'') path) = 1 \<Longrightarrow>
   py_int w (split_on CHR ''|'' path ! 1) = None \<Longrightarrow>
   resolve_path (Suc n) w self path = Some (Inl NotImplementedError) \<and>
   (update_tagset w ts item ''@'' = Some (JStr path) \<longrightarrow>
      items_loop (Suc n) w self ts (item # rest) =
        Skip # items_loop (Suc n) w self (update_tagset w ts item) rest \<and>
      yielded (items_loop (Suc n) w self ts (item # rest)) =
        yielded (items_loop (Suc n) w self (update_tagset w ts item) rest))"
  using split_ref_one_separator [of path w] by simp

theorem non_integer_index_skipped_witness:
  "py_int example_world ''song'' = None \<and>
   resolve_path (Suc 0) example_world ''/m/a.tags'' ''x.zip|song'' =
     Some (Inl NotImplementedError) \<and>
   map fst (yielded (items_loop (Suc 0) example_world ''/m/a.tags'' Map.empty
      [[(''@'', JStr ''x.zip|song'')], [(''@'', JStr ''t2.flac''), (''genre'', JList [])]])) =
     [''/m/t2.flac'']"
  using non_integer_index_skipped [of "''x.zip|song''" example_world 0 "''/m/a.tags''" Map.empty
      "[(''@'', JStr ''x.zip|song'')]" "[[(''@'', JStr ''t2.flac''), (''genre'', JList [])]]"]
  by (simp add: example_simps)

section \<open>Indexed references to a file that is not a sidecar file\<close>

text \<open>
  Claim C6, as stated, fails: for an indexed reference whose resolved base does not end in
  \<^verbatim>\<open>.tags\<close> the code raises a plain \<^verbatim>\<open>Exception\<close>, which is not the
  \<^verbatim>\<open>NotImplementedError\<close> that \<^verbatim>\<open>items\<close> catches. In the file
  \<^verbatim>\<open>/m/d.tags\<close> the first entry refers to \<^verbatim>\<open>x.flac|1\<close>: the run ends with the
  exception and the second entry is never yielded.
\<close>

theorem indexed_non_sidecar_counterexample:
  "resolve_path (Suc (Suc 0)) example_world ''/m/d.tags'' ''x.flac|1'' \<noteq>
     Some (Inl NotImplementedError) \<and>
   items (Suc (Suc 0)) example_world ''/m/d.tags'' = [Raise Exception] \<and>
   yielded (items (Suc (Suc 0)) example_world ''/m/d.tags'') = []"
  by (simp add: example_simps)

text \<open>
  Claim C6, amended. A reference carrying an integer index whose base resolves to a path
  that does not end in \<^verbatim>\<open>.tags\<close> makes \<^verbatim>\<open>_resolve_path\<close> raise
  \<^verbatim>\<open>Exception\<close>; \<^verbatim>\<open>items\<close> does not catch it, so for an entry with this
  reference the run ends with the exception and the remaining entries are not processed.
\<close>

theorem indexed_non_sidecar_raises:
  "split_ref w path = Inr (base, Some k) \<Longrightarrow>
   resolve w self base = Inr p \<Longrightarrow>
   \<not> endswith p ''.tags'' \<Longrightarrow>
   resolve_path (Suc n) w self path = Some (Inl Exception) \<and>
   (update_tagset w ts item ''@'' = Some (JStr path) \<longrightarrow>
      items_loop (Suc n) w self ts (item # rest) = [Raise Exception])"
  by simp

theorem indexed_non_sidecar_raises_witness:
  "split_ref example_world ''x.flac|1'' = Inr (''x.flac'', Some 1) \<and>
   resolve example_world ''/m/d.tags'' ''x.flac'' = Inr ''/m/x.flac'' \<and>
   resolve_path (Suc 0) example_world ''/m/d.tags'' ''x.flac|1'' = Some (Inl Exception) \<and>
   items_loop (Suc 0) example_world ''/m/d.tags'' Map.empty
     [[(''@'', JStr ''x.flac|1'')], [(''@'', JStr ''y.flac'')]] = [Raise Exception]"
  using indexed_non_sidecar_raises [of example_world "''x.flac|1''" "''x.flac''" 1 "''/m/d.tags''"
      "''/m/x.flac''" 0 Map.empty "[(''@'', JStr ''x.flac|1'')]" "[[(''@'', JStr ''y.flac'')]]"]
  by (simp add: example_simps)

section \<open>The loop over the entries of a nested file\<close>

lemma find_entry_short:
  "TooDeep \<notin> set evs \<Longrightarrow> int (length (yielded evs)) < sub - i + 1 \<Longrightarrow>
   \<exists>e. find_entry evs i sub = Some (Inl e) \<and> (e = LookupError \<or> Raise e \<in> set evs)"
proof (induction evs arbitrary: i)
  case Nil
  then show ?case by simp
next
  case (Cons ev evs)
  show ?case
  proof (cases ev)
    case (Yield p d)
    with Cons.prems have "TooDeep \<notin> set evs" "int (length (yielded evs)) < sub - (i + 1) + 1" "i \<noteq> sub"
      by auto
    from Cons.IH [OF this(1,2)] Yield \<open>i \<noteq> sub\<close> show ?thesis by auto
  next
    case Skip
    with Cons.prems have "TooDeep \<notin> set evs" "int (length (yielded evs)) < sub - i + 1" by auto
    from Cons.IH [OF this] Skip show ?thesis by auto
  next
    case (Raise e)
    then show ?thesis by simp
  next
    case TooDeep
    with Cons.prems show ?thesis by simp
  qed
qed

lemma ref_type_error_cases: "ref_type_error v = TypeError \<or> ref_type_error v = AttributeError"
  by (cases v) auto

lemma items_loop_Raise:
  "Raise e \<in> set (items_loop n w self ts objs) \<Longrightarrow> e \<noteq> NotImplementedError"
proof (induction objs arbitrary: ts)
  case Nil
  then show ?case by simp
next
  case (Cons item rest)
  then show ?case
    using ref_type_error_cases
    by (auto split: option.splits jval.splits sum.splits if_splits)
qed

lemma items_loop_Cons_shape:
  "(\<exists>e. items_loop n w self ts (item # rest) = [Raise e]) \<or>
   items_loop n w self ts (item # rest) = [TooDeep] \<or>
   (\<exists>ev. (ev = Skip \<or> (\<exists>p d. ev = Yield p d)) \<and>
      items_loop n w self ts (item # rest) =
        ev # items_loop n w self (update_tagset w ts item) rest)"
  by (auto split: option.splits jval.splits sum.splits)

lemma items_loop_Raise_last:
  "Raise e \<in> set (items_loop n w self ts objs) \<Longrightarrow>
   \<exists>pre. items_loop n w self ts objs = pre @ [Raise e] \<and>
         (\<forall>ev \<in> set pre. ev = Skip \<or> (\<exists>p d. ev = Yield p d))"
proof (induction objs arbitrary: ts)
  case Nil
  then show ?case by simp
next
  case (Cons item rest)
  let ?run = "items_loop n w self ts (item # rest)"
  let ?tail = "items_loop n w self (update_tagset w ts item) rest"
  from items_loop_Cons_shape [of n w self ts item rest]
  consider (raise) e0 where "?run = [Raise e0]"
    | (deep) "?run = [TooDeep]"
    | (step) ev where "ev = Skip \<or> (\<exists>p d. ev = Yield p d)" "?run = ev # ?tail"
    by blast
  then show ?case
  proof cases
    case raise
    with Cons.prems have "?run = [] @ [Raise e]" by simp
    then show ?thesis by (intro exI [of _ "[]"]) simp
  next
    case deep
    with Cons.prems show ?thesis by simp
  next
    case step
    with Cons.prems have "Raise e \<in> set ?tail" by auto
    from Cons.IH [OF this] obtain pre where pre: "?tail = pre @ [Raise e]"
      "\<forall>ev \<in> set pre. ev = Skip \<or> (\<exists>p d. ev = Yield p d)" by blast
    with step have "?run = (ev # pre) @ [Raise e]"
      "\<forall>ev' \<in> set (ev # pre). ev' = Skip \<or> (\<exists>p d. ev' = Yield p d)" by auto
    then show ?thesis by (intro exI [of _ "ev # pre"]) simp
  qed
qed

lemma find_entry_Raise_last:
  "\<forall>ev \<in> set pre. ev = Skip \<or> (\<exists>p d. ev = Yield p d) \<Longrightarrow>
   int (length (yielded (pre @ [Raise e]))) < sub - i + 1 \<Longrightarrow>
   find_entry (pre @ [Raise e]) i sub = Some (Inl e)"
proof (induction pre arbitrary: i)
  case Nil
  then show ?case by simp
next
  case (Cons ev pre)
  from Cons.prems(1) consider "ev = Skip" | p d where "ev = Yield p d" by auto
  then show ?case
  proof cases
    case 1
    with Cons show ?thesis by simp
  next
    case 2
    with Cons.prems have "\<forall>ev \<in> set pre. ev = Skip \<or> (\<exists>p d. ev = Yield p d)"
      "int (length (yielded (pre @ [Raise e]))) < sub - (i + 1) + 1" "i \<noteq> sub"
      by auto
    from Cons.IH [OF this(1,2)] 2 \<open>i \<noteq> sub\<close> show ?thesis by simp
  qed
qed

section \<open>An index beyond the entries of the nested file\<close>

text \<open>
  Claim C5, as stated, fails: the failure is not always the not-found condition. The
  nested file \<^verbatim>\<open>/m/g.tags\<close> yields no entry, since its first reference
  \<^verbatim>\<open>a|b|c\<close> ends its run with \<^verbatim>\<open>ValueError\<close>; resolving \<^verbatim>\<open>g.tags|1\<close> then
  fails with that \<^verbatim>\<open>ValueError\<close>, not with \<^verbatim>\<open>LookupError\<close>.
\<close>

theorem index_beyond_entries_counterexample:
  "yielded (items (Suc 0) example_world ''/m/g.tags'') = [] \<and>
   resolve_path (Suc (Suc 0)) example_world ''/m/n.tags'' ''g.tags|1'' = Some (Inl ValueError) \<and>
   items (Suc (Suc 0)) example_world ''/m/n.tags'' = [Raise ValueError]"
  by (simp add: example_simps)

text \<open>
  Claim C5, amended. Let \<open>path\<close> be an indexed reference whose base resolves to a path
  \<open>p\<close> ending in \<^verbatim>\<open>.tags\<close>, and let the run of the nested loader stay within the
  fuel and yield fewer pairs than the index. Then \<^verbatim>\<open>_resolve_path\<close> fails with an
  exception \<open>e\<close> and returns no path: \<^verbatim>\<open>LookupError\<close> when the nested run ended
  without an exception, and otherwise the exception that ended the nested run, which is
  never \<^verbatim>\<open>NotImplementedError\<close>. \<^verbatim>\<open>items\<close> does not catch \<open>e\<close>: for an entry with
  this reference the run of the containing file ends with \<open>e\<close> and the remaining
  entries are not processed.
\<close>

theorem index_beyond_entries_propagates:
  assumes "split_ref w path = Inr (base, Some k)"
    and "resolve w self base = Inr p"
    and "endswith p ''.tags''"
    and "TooDeep \<notin> set (items n w p)"
    and "int (length (yielded (items n w p))) < k"
  shows "\<exists>e. resolve_path (Suc n) w self path = Some (Inl e) \<and>
           e \<noteq> NotImplementedError \<and>
           ((\<forall>e'. Raise e' \<notin> set (items n w p)) \<longrightarrow> e = LookupError) \<and>
           (\<forall>e'. Raise e' \<in> set (items n w p) \<longrightarrow> e = e') \<and>
           (update_tagset w ts item ''@'' = Some (JStr path) \<longrightarrow>
              items_loop (Suc n) w self ts (item # rest) = [Raise e])"
proof -
  let ?evs = "items n w p"
  from assms(5) have "int (length (yielded ?evs)) < k - 1 + 1" by simp
  from find_entry_short [OF assms(4) this]
  obtain e where e: "find_entry ?evs 1 k = Some (Inl e)"
    and cases: "e = LookupError \<or> Raise e \<in> set ?evs" by blast
  from cases have ne: "e \<noteq> NotImplementedError"
    using items_loop_Raise [of e n w p Map.empty]
    by (auto simp: items_def)
  from e assms(1-3) have r: "resolve_path (Suc n) w self path = Some (Inl e)"
    by (simp add: items_def)
  from cases have 1: "(\<forall>e'. Raise e' \<notin> set ?evs) \<longrightarrow> e = LookupError" by blast
  have 2: "e = e'" if "Raise e' \<in> set ?evs" for e'
  proof -
    from that obtain pre where pre: "?evs = pre @ [Raise e']"
      "\<forall>ev \<in> set pre. ev = Skip \<or> (\<exists>p d. ev = Yield p d)"
      using items_loop_Raise_last [of e' n w p Map.empty "load_objs w p"]
      by (auto simp: items_def)
    from assms(5) pre(1) have "int (length (yielded (pre @ [Raise e']))) < k - 1 + 1" by simp
    from find_entry_Raise_last [OF pre(2) this] pre(1) e show ?thesis by simp
  qed
  from r ne have 3: "update_tagset w ts item ''@'' = Some (JStr path) \<longrightarrow>
      items_loop (Suc n) w self ts (item # rest) = [Raise e]"
    by (simp del: resolve_path.simps)
  from r ne 1 2 3 show ?thesis by blast
qed

lemma a_tags_run:
  "map fst (yielded (items (Suc 0) example_world ''/m/a.tags'')) = [''/m/t1.flac'', ''/m/t2.flac'']"
  "TooDeep \<notin> set (items (Suc 0) example_world ''/m/a.tags'')"
  "Raise e \<notin> set (items (Suc 0) example_world ''/m/a.tags'')"
  by (simp_all add: example_simps)

theorem index_beyond_entries_propagates_witness:
  "items (Suc (Suc 0)) example_world ''/m/f.tags'' = [Raise LookupError]"
proof -
  have 1: "split_ref example_world ''a.tags|7'' = Inr (''a.tags'', Some 7)"
    by (simp add: example_simps)
  have 2: "resolve example_world ''/m/f.tags'' ''a.tags'' = Inr ''/m/a.tags''"
    by (simp add: example_simps)
  have 3: "endswith ''/m/a.tags'' ''.tags''" by (simp add: example_simps)
  have "length (map fst (yielded (items (Suc 0) example_world ''/m/a.tags''))) = 2"
    by (simp only: a_tags_run) simp
  then have 4: "int (length (yielded (items (Suc 0) example_world ''/m/a.tags''))) < 7" by simp
  have 5: "update_tagset example_world Map.empty [(''@'', JStr ''a.tags|7'')] ''@'' =
      Some (JStr ''a.tags|7'')"
    by (simp add: example_simps)
  have 6: "load_objs example_world ''/m/f.tags'' =
      [[(''@'', JStr ''a.tags|7'')], [(''@'', JStr ''t.flac'')]]"
    by (simp add: example_simps)
  from index_beyond_entries_propagates [OF 1 2 3 a_tags_run(2) 4, of Map.empty
      "[(''@'', JStr ''a.tags|7'')]" "[[(''@'', JStr ''t.flac'')]]"] 5 a_tags_run(3)
  show ?thesis by (auto simp add: items_def 6 simp del: resolve_path.simps items_loop.simps)
qed

section \<open>Properties of the cumulative tag set\<close>

lemma find_app:
  "find P (xs @ ys) = (case find P xs of None \<Rightarrow> find P ys | Some x \<Rightarrow> Some x)"
  by (induction xs) auto

lemma casefold_keys_snoc:
  "casefold_keys w (data @ [(k, v)]) = (casefold_keys w data)(casefold w k \<mapsto> v)"
  by (simp add: casefold_keys_def)

text \<open>The folded object holds, for each key, the value of the last member that folds to it.\<close>

lemma casefold_keys_find:
  "casefold_keys w data k =
     map_option snd (find (\<lambda>(k0, v). casefold w k0 = k) (rev data))"
proof (induction data rule: rev_induct)
  case Nil
  then show ?case by (simp add: casefold_keys_def)
next
  case (snoc kv data)
  obtain k0 v where kv: "kv = (k0, v)" by (cases kv)
  with snoc show ?case by (simp add: casefold_keys_snoc)
qed

lemma casefold_keys_None:
  "casefold_keys w data k = None \<longleftrightarrow> k \<notin> casefold w ` fst ` set data"
  by (force simp: casefold_keys_find find_None_iff image_iff)

lemma casefold_at: "casefold w ''@'' = ''@''"
  by (simp add: casefold_def casefold_char_def is_ascii_def)

lemma update_tagset_no_empty_list: "update_tagset w ts item k \<noteq> Some (JList [])"
  by (simp add: update_tagset_def Let_def)

lemma update_tagset_find:
  "update_tagset w ts item k =
     (case find (\<lambda>(k0, v). casefold w k0 = k) (rev item) of
        None \<Rightarrow> (if ts k = Some (JList []) then None else ts k)
      | Some (k0, v) \<Rightarrow> (if v = JList [] then None else Some v))"
  by (auto simp: update_tagset_def Let_def map_add_def casefold_keys_find split: option.splits)

lemma update_tagset_missing:
  "k \<notin> casefold w ` fst ` set item \<Longrightarrow>
   update_tagset w ts item k = (if ts k = Some (JList []) then None else ts k)"
proof -
  assume "k \<notin> casefold w ` fst ` set item"
  then have "casefold_keys w item k = None" by (simp add: casefold_keys_None)
  then show ?thesis by (simp add: update_tagset_def Let_def map_add_def)
qed

lemma update_tagset_inherit:
  "ts ''@'' = Some v \<Longrightarrow> update_tagset w ts ((''@'', v) # item) = update_tagset w ts item"
proof
  fix k
  assume "ts ''@'' = Some v"
  then show "update_tagset w ts ((''@'', v) # item) k = update_tagset w ts item k"
    by (auto simp: update_tagset_find find_app casefold_at split: option.splits)
qed

lemma foldl_update_tagset_no_empty_list:
  "objs \<noteq> [] \<Longrightarrow> foldl (update_tagset w) ts objs k \<noteq> Some (JList [])"
  by (induction objs rule: rev_induct) (simp_all add: update_tagset_no_empty_list)

text \<open>
  The tag set after a sequence of entries: for each key, the last member among all of them
  that folds to the key decides; without such a member the key keeps what it had.
\<close>

lemma foldl_update_tagset_find:
  "\<forall>k. ts k \<noteq> Some (JList []) \<Longrightarrow>
   foldl (update_tagset w) ts objs k =
     (case find (\<lambda>(k0, v). casefold w k0 = k) (rev (concat objs)) of
        None \<Rightarrow> ts k
      | Some (k0, v) \<Rightarrow> (if v = JList [] then None else Some v))"
proof (induction objs rule: rev_induct)
  case Nil
  then show ?case by simp
next
  case (snoc item objs)
  from snoc.prems have "ts k \<noteq> Some (JList [])" by blast
  with snoc.IH [OF snoc.prems] show ?case
    by (auto simp: update_tagset_find find_app split: option.splits)
qed

section \<open>Entries without a reference\<close>

text \<open>
  Claim C1, as stated, fails: \<^verbatim>\<open>data.pop('@')\<close> raises \<^verbatim>\<open>KeyError\<close> when the
  key is missing, and \<^verbatim>\<open>items\<close> only catches \<^verbatim>\<open>NotImplementedError\<close>. In the
  file \<^verbatim>\<open>/m/c.tags\<close> the first element has no \<^verbatim>\<open>@\<close>: the run ends with the
  exception, and the second element, which has a reference, is never yielded.
\<close>

theorem missing_reference_key_counterexample:
  "items (Suc (Suc 0)) example_world ''/m/c.tags'' = [Raise KeyError] \<and>
   yielded (items (Suc (Suc 0)) example_world ''/m/c.tags'') = []"
  by (simp add: example_simps)

text \<open>
  Claim C1, amended. An element without the key \<^verbatim>\<open>@\<close> gets no special treatment.
  When the tag set accumulated before it (\<open>ts\<close>) has no \<^verbatim>\<open>@\<close> either, the run
  ends with \<^verbatim>\<open>KeyError\<close>: nothing is yielded for this element or for the remaining
  ones. When the accumulated tag set has \<^verbatim>\<open>@\<close> (left there by an earlier element),
  the element behaves exactly as if it declared that same reference itself.
\<close>

theorem missing_reference_key:
  "''@'' \<notin> casefold w ` fst ` set item \<Longrightarrow>
   (ts ''@'' = None \<longrightarrow> items_loop n w self ts (item # rest) = [Raise KeyError]) \<and>
   (\<forall>v. ts ''@'' = Some v \<longrightarrow>
      items_loop n w self ts (item # rest) =
      items_loop n w self ts (((''@'', v) # item) # rest))"
proof (intro conjI allI impI)
  assume "''@'' \<notin> casefold w ` fst ` set item" and "ts ''@'' = None"
  then have "update_tagset w ts item ''@'' = None" by (simp add: update_tagset_missing)
  then show "items_loop n w self ts (item # rest) = [Raise KeyError]" by simp
next
  fix v
  assume "ts ''@'' = Some v"
  then have "update_tagset w ts ((''@'', v) # item) = update_tagset w ts item"
    by (rule update_tagset_inherit)
  then show "items_loop n w self ts (item # rest) =
      items_loop n w self ts (((''@'', v) # item) # rest)"
    by (simp only: items_loop.simps)
qed

theorem missing_reference_key_witness:
  "items_loop (Suc 0) example_world ''/m/c.tags'' Map.empty
     [[(''genre'', JStr ''pop'')], [(''@'', JStr ''t.flac'')]] = [Raise KeyError] \<and>
   map fst (yielded (items (Suc 0) example_world ''/m/h.tags'')) = [''/m/t1.flac'', ''/m/t1.flac'']"
proof -
  have k: "''@'' \<notin> casefold example_world ` fst ` set [(''genre'', JStr ''pop'')]"
       "''@'' \<notin> casefold example_world ` fst ` set [(''title'', JStr ''two'')]"
    by (simp_all add: casefold_def casefold_char_def is_ascii_def)
  have t: "update_tagset example_world Map.empty [(''@'', JStr ''t1.flac'')] ''@'' =
      Some (JStr ''t1.flac'')"
    by (simp add: example_simps)
  from missing_reference_key [OF k(1), of Map.empty "Suc 0" "''/m/c.tags''"
      "[[(''@'', JStr ''t.flac'')]]"]
  have a: "items_loop (Suc 0) example_world ''/m/c.tags'' Map.empty
     [[(''genre'', JStr ''pop'')], [(''@'', JStr ''t.flac'')]] = [Raise KeyError]" by simp
  from missing_reference_key [OF k(2),
      of "update_tagset example_world Map.empty [(''@'', JStr ''t1.flac'')]"
      "Suc 0" "''/m/h.tags''" "[]"] t
  have "items_loop (Suc 0) example_world ''/m/h.tags''
          (update_tagset example_world Map.empty [(''@'', JStr ''t1.flac'')])
          [[(''title'', JStr ''two'')]] =
        items_loop (Suc 0) example_world ''/m/h.tags''
          (update_tagset example_world Map.empty [(''@'', JStr ''t1.flac'')])
          [[(''@'', JStr ''t1.flac''), (''title'', JStr ''two'')]]"
    by blast
  then have b: "map fst (yielded (items (Suc 0) example_world ''/m/h.tags'')) =
      [''/m/t1.flac'', ''/m/t1.flac'']"
    by (simp add: example_simps)
  from a b show ?thesis by blast
qed

section \<open>The events of a run\<close>

lemma items_loop_nth_Yield:
  "i < length (items_loop n w self ts objs) \<Longrightarrow>
   items_loop n w self ts objs ! i = Yield p d \<Longrightarrow>
   i < length objs \<and>
   d = (foldl (update_tagset w) ts (take (Suc i) objs))(''@'' := None) \<and>
   (\<exists>ref. foldl (update_tagset w) ts (take (Suc i) objs) ''@'' = Some (JStr ref) \<and>
          resolve_path n w self ref = Some (Inr p))"
proof (induction objs arbitrary: ts i)
  case Nil
  then show ?case by simp
next
  case (Cons item rest)
  let ?ts = "update_tagset w ts item"
  show ?case
  proof (cases i)
    case 0
    with Cons.prems show ?thesis
      by (auto split: option.splits jval.splits sum.splits if_splits)
  next
    case (Suc j)
    with Cons.prems have run: "items_loop n w self ts (item # rest) ! Suc j = Yield p d"
      and len: "Suc j < length (items_loop n w self ts (item # rest))" by simp_all
    from len items_loop_Cons_shape [of n w self ts item rest]
    obtain ev where "items_loop n w self ts (item # rest) = ev # items_loop n w self ?ts rest"
      by auto
    with run len have "j < length (items_loop n w self ?ts rest)"
      "items_loop n w self ?ts rest ! j = Yield p d" by simp_all
    from Cons.IH [OF this] Suc show ?thesis by simp
  qed
qed

section \<open>Cumulative tag sets\<close>

text \<open>
  Claim C2. Events and entries of a file have the same positions. Let entry \<open>i\<close>
  (counted from 0) be yielded with the tag set \<open>d\<close>. For every key other than the
  reserved \<^verbatim>\<open>@\<close>, which is popped before the pair is yielded, \<open>d\<close> holds the value
  of the last member, among the entries up to \<open>i\<close>, whose case-folded key it is, and
  nothing when that value is \<^verbatim>\<open>[]\<close> or there is no such member. Relative to an
  earlier yielded entry \<open>j\<close> with tag set \<open>d'\<close> (for \<open>j = i - 1\<close> the entry just
  before; entries between \<open>j\<close> and \<open>i\<close> were skipped): \<open>d\<close> is \<open>d'\<close> overlaid with
  the case-folded members of the entries after \<open>j\<close> up to \<open>i\<close>, where a key whose
  last value is \<^verbatim>\<open>[]\<close> is deleted; so a key that none of these entries declares keeps
  the value it has in \<open>d'\<close>.
\<close>

theorem cumulative_tag_sets:
  assumes "i < length (items n w self)"
    and "items n w self ! i = Yield p d"
  shows
    "(\<forall>k. d k =
        (if k = ''@'' then None
         else case find (\<lambda>(k0, v). casefold w k0 = k)
                     (rev (concat (take (Suc i) (load_objs w self)))) of
                None \<Rightarrow> None
              | Some (k0, v) \<Rightarrow> if v = JList [] then None else Some v)) \<and>
     (\<forall>j p' d'. j < i \<and> items n w self ! j = Yield p' d' \<longrightarrow>
        (\<forall>k. d k =
           (if k = ''@'' then None
            else case find (\<lambda>(k0, v). casefold w k0 = k)
                        (rev (concat (take (i - j) (drop (Suc j) (load_objs w self))))) of
                   None \<Rightarrow> d' k
                 | Some (k0, v) \<Rightarrow> if v = JList [] then None else Some v)))"
proof (intro conjI allI impI)
  let ?objs = "load_objs w self"
  let ?T = "\<lambda>m. foldl (update_tagset w) Map.empty (take m ?objs)"
  from assms have i: "i < length ?objs" and d: "d = (?T (Suc i))(''@'' := None)"
    using items_loop_nth_Yield [of i n w self Map.empty ?objs p d] by (simp_all add: items_def)
  show "d k =
        (if k = ''@'' then None
         else case find (\<lambda>(k0, v). casefold w k0 = k) (rev (concat (take (Suc i) ?objs))) of
                None \<Rightarrow> None
              | Some (k0, v) \<Rightarrow> if v = JList [] then None else Some v)" for k
    unfolding d using foldl_update_tagset_find [of Map.empty w "take (Suc i) ?objs" k] by simp
  fix j p' d' k
  assume "j < i \<and> items n w self ! j = Yield p' d'"
  then have ji: "j < i" and ej: "items n w self ! j = Yield p' d'" by simp_all
  from ji assms(1) have "j < length (items n w self)" by simp
  with ej have d': "d' = (?T (Suc j))(''@'' := None)"
    using items_loop_nth_Yield [of j n w self Map.empty ?objs p' d'] by (simp add: items_def)
  from ji have "Suc i = Suc j + (i - j)" by simp
  then have "take (Suc i) ?objs = take (Suc j) ?objs @ take (i - j) (drop (Suc j) ?objs)"
    by (simp only: take_add)
  then have step: "?T (Suc i) = foldl (update_tagset w) (?T (Suc j)) (take (i - j) (drop (Suc j) ?objs))"
    by simp
  from ji i have "take (Suc j) ?objs \<noteq> []" by auto
  then have ne: "\<forall>k. ?T (Suc j) k \<noteq> Some (JList [])"
    using foldl_update_tagset_no_empty_list by blast
  show "d k =
           (if k = ''@'' then None
            else case find (\<lambda>(k0, v). casefold w k0 = k)
                        (rev (concat (take (i - j) (drop (Suc j) ?objs)))) of
                   None \<Rightarrow> d' k
                 | Some (k0, v) \<Rightarrow> if v = JList [] then None else Some v)"
    unfolding d d' step
    using foldl_update_tagset_find [OF ne, of w "take (i - j) (drop (Suc j) ?objs)" k]
    by (simp split: option.splits)
qed

lemma a_tags_events:
  "items (Suc 0) example_world ''/m/a.tags'' =
    [Yield ''/m/t1.flac''
       ((update_tagset example_world Map.empty
           [(''@'', JStr ''t1.flac''), (''track'', JStr ''1''), (''Genre'', JList [JStr ''rock''])])
        (''@'' := None)),
     Skip,
     Yield ''/m/t2.flac''
       ((update_tagset example_world
           (update_tagset example_world
              (update_tagset example_world Map.empty
                 [(''@'', JStr ''t1.flac''), (''track'', JStr ''1''),
                  (''Genre'', JList [JStr ''rock''])])
              [(''@'', JStr ''x.zip|song'')])
           [(''@'', JStr ''t2.flac''), (''genre'', JList [])])
        (''@'' := None))]"
proof -
  let ?e1 = "[(''@'', JStr ''t1.flac''), (''track'', JStr ''1''), (''Genre'', JList [JStr ''rock''])]"
  let ?e2 = "[(''@'', JStr ''x.zip|song'')]"
  let ?e3 = "[(''@'', JStr ''t2.flac''), (''genre'', JList [])]"
  let ?t1 = "update_tagset example_world Map.empty ?e1"
  let ?t2 = "update_tagset example_world ?t1 ?e2"
  let ?t3 = "update_tagset example_world ?t2 ?e3"
  have l: "load_objs example_world ''/m/a.tags'' = [?e1, ?e2, ?e3]" by (simp add: example_simps)
  have a: "?t1 ''@'' = Some (JStr ''t1.flac'')" "?t2 ''@'' = Some (JStr ''x.zip|song'')"
    "?t3 ''@'' = Some (JStr ''t2.flac'')"
    by (simp_all add: example_simps)
  have r: "resolve_path (Suc 0) example_world ''/m/a.tags'' ''t1.flac'' = Some (Inr ''/m/t1.flac'')"
    "resolve_path (Suc 0) example_world ''/m/a.tags'' ''x.zip|song'' = Some (Inl NotImplementedError)"
    "resolve_path (Suc 0) example_world ''/m/a.tags'' ''t2.flac'' = Some (Inr ''/m/t2.flac'')"
    by (simp_all add: example_simps)
  show ?thesis unfolding items_def l by (simp add: a r del: resolve_path.simps)
qed

theorem cumulative_tag_sets_witness:
  "\<exists>p' d' p d. items (Suc 0) example_world ''/m/a.tags'' = [Yield p' d', Skip, Yield p d] \<and>
     d' ''genre'' = Some (JList [JStr ''rock'']) \<and> d ''genre'' = None \<and>
     d' ''track'' = Some (JStr ''1'') \<and> d ''track'' = d' ''track''"
proof -
  let ?e1 = "[(''@'', JStr ''t1.flac''), (''track'', JStr ''1''), (''Genre'', JList [JStr ''rock''])]"
  let ?e2 = "[(''@'', JStr ''x.zip|song'')]"
  let ?e3 = "[(''@'', JStr ''t2.flac''), (''genre'', JList [])]"
  let ?d' = "(update_tagset example_world Map.empty ?e1)(''@'' := None)"
  let ?d = "(update_tagset example_world
              (update_tagset example_world (update_tagset example_world Map.empty ?e1) ?e2) ?e3)
            (''@'' := None)"
  have l: "load_objs example_world ''/m/a.tags'' = [?e1, ?e2, ?e3]" by (simp add: example_simps)
  have h: "2 < length (items (Suc 0) example_world ''/m/a.tags'')"
    "items (Suc 0) example_world ''/m/a.tags'' ! 2 = Yield ''/m/t2.flac'' ?d"
    by (simp_all add: a_tags_events)
  have j: "0 < (2::nat) \<and> items (Suc 0) example_world ''/m/a.tags'' ! 0 = Yield ''/m/t1.flac'' ?d'"
    by (simp add: a_tags_events)
  note c = cumulative_tag_sets [OF h, THEN conjunct2, rule_format, OF j, unfolded l]
  have f: "casefold example_world ''@'' = ''@''" "casefold example_world ''genre'' = ''genre''"
    by (simp_all add: casefold_def casefold_char_def is_ascii_def)
  from c [of "''genre''"] have g: "?d ''genre'' = None"
    by (simp add: f numeral_2_eq_2)
  from c [of "''track''"] have t: "?d ''track'' = ?d' ''track''"
    by (simp add: f numeral_2_eq_2)
  have v: "?d' ''genre'' = Some (JList [JStr ''rock''])" "?d' ''track'' = Some (JStr ''1'')"
    by (simp_all add: example_simps)
  from a_tags_events g t v show ?thesis by blast
qed

section \<open>Aliases of a field\<close>

lemma get_find:
  "get dec tags data =
     (case find (\<lambda>t. data t \<noteq> None) tags of
        None \<Rightarrow> Inr (PJ JNone)
      | Some t \<Rightarrow> dec (the (data t)))"
  by (induction tags) auto

lemma py_int_1: "py_int w ''1'' = Some 1"
  by (simp add: example_simps)

text \<open>
  Claim C8. For every decode rule \<open>dec\<close>, every list of aliases \<open>tags\<close> and every tag
  set, \<^verbatim>\<open>get\<close> returns the decoded value of the first alias, in the order of the
  list, that is a key of the tag set, and \<^verbatim>\<open>None\<close> when no alias is a key. In
  particular, with both \<^verbatim>\<open>track\<close> = "1" and \<^verbatim>\<open>tracknumber\<close> = "9" the field
  \<^verbatim>\<open>track\<close> of the table decodes to the integer 1.
\<close>

theorem first_alias_wins:
  "get dec tags data =
     (case find (\<lambda>t. data t \<noteq> None) tags of
        None \<Rightarrow> Inr (PJ JNone)
      | Some t \<Rightarrow> dec (the (data t))) \<and>
   (data ''track'' = Some (JStr ''1'') \<and> data ''tracknumber'' = Some (JStr ''9'') \<longrightarrow>
      tag_get w parse ''track'' data = Some (Inr (PJ (JInt 1))))"
  by (simp add: get_find tag_get_def TAGS_def py_int_1)

theorem first_alias_wins_witness:
  "get (decode example_world example_parse IntConverter) [''track'', ''tracknumber'']
     [''tracknumber'' \<mapsto> JStr ''9''] = Inr (PJ (JInt 9)) \<and>
   tag_get example_world example_parse ''track''
     [''track'' \<mapsto> JStr ''1'', ''tracknumber'' \<mapsto> JStr ''9''] =
     Some (Inr (PJ (JInt 1)))"
  using first_alias_wins [of "decode example_world example_parse IntConverter"
      "[''track'', ''tracknumber'']" "[''tracknumber'' \<mapsto> JStr ''9'']" example_world example_parse]
    first_alias_wins [of "decode example_world example_parse IntConverter"
      "[''track'', ''tracknumber'']"
      "[''track'' \<mapsto> JStr ''1'', ''tracknumber'' \<mapsto> JStr ''9'']" example_world example_parse]
  by (simp add: example_simps)

section \<open>Dates and their precision\<close>

lemma py_int_1999: "py_int w ''1999'' = Some 1999"
  by (simp add: example_simps)

lemma py_int_iso: "py_int w ''1999-05-03'' = None"
  by (simp add: example_simps)

lemmas date_simps =
  tag_get_def TAGS_def dependent_tag_get_def DEPENDENT_TAGS_def dependent_get_def decode_date_def
  new_MTagDate_def new_date_def date_args_def c_int_def valid_date_def days_in_month_def
  is_leap_def

text \<open>
  Claim C7. Let \<^verbatim>\<open>dateutil.parser.parse\<close> read "1999-05-03" as 3 May 1999. Then
  decoding "1999" gives the date 1999-01-01 with the flag unset (year only), and decoding
  "1999-05-03" gives 1999-05-03 with the flag set (full date). For a tag set whose
  \<^verbatim>\<open>date\<close> is "1999" the field \<^verbatim>\<open>date\<close> has the first value, and from it the
  dependent \<^verbatim>\<open>year\<close> is 1999 while \<^verbatim>\<open>month\<close> and \<^verbatim>\<open>day\<close> are
  \<^verbatim>\<open>None\<close>. For "1999-05-03" the dependent \<^verbatim>\<open>month\<close> is 5, \<^verbatim>\<open>day\<close> is 3,
  and \<^verbatim>\<open>DateHack\<close> gives the plain date 1999-05-03, without the flag.
\<close>

theorem date_precision:
  assumes "parse (JStr ''1999-05-03'') = Inr (1999, 5, 3)"
  shows
   "decode w parse DateConverter (JStr ''1999'') =
      Inr (PMTagDate \<lparr>year = 1999, month = 1, day = 1, mtag_date = False\<rparr>) \<and>
    decode w parse DateConverter (JStr ''1999-05-03'') =
      Inr (PMTagDate \<lparr>year = 1999, month = 5, day = 3, mtag_date = True\<rparr>) \<and>
    (data ''date'' = Some (JStr ''1999'') \<longrightarrow>
       (\<exists>v. tag_get w parse ''date'' data = Some (Inr v) \<and>
            v = PMTagDate \<lparr>year = 1999, month = 1, day = 1, mtag_date = False\<rparr> \<and>
            (context ''date'' = Some v \<longrightarrow>
               dependent_tag_get ''year'' context = Some (Inr (PJ (JInt 1999))) \<and>
               dependent_tag_get ''month'' context = Some (Inr (PJ JNone)) \<and>
               dependent_tag_get ''day'' context = Some (Inr (PJ JNone))))) \<and>
    (data ''date'' = Some (JStr ''1999-05-03'') \<longrightarrow>
       (\<exists>v. tag_get w parse ''date'' data = Some (Inr v) \<and>
            v = PMTagDate \<lparr>year = 1999, month = 5, day = 3, mtag_date = True\<rparr> \<and>
            (context ''date'' = Some v \<longrightarrow>
               dependent_tag_get ''year'' context = Some (Inr (PJ (JInt 1999))) \<and>
               dependent_tag_get ''month'' context = Some (Inr (PJ (JInt 5))) \<and>
               dependent_tag_get ''day'' context = Some (Inr (PJ (JInt 3))) \<and>
               dependent_tag_get ''date'' context =
                 Some (Inr (PDate \<lparr>year = 1999, month = 5, day = 3\<rparr>)))))"
  using assms by (simp add: date_simps py_int_1999 py_int_iso)

theorem date_precision_witness:
  "example_parse (JStr ''1999-05-03'') = Inr (1999, 5, 3) \<and>
   tag_get example_world example_parse ''date'' [''date'' \<mapsto> JStr ''1999''] =
     Some (Inr (PMTagDate \<lparr>year = 1999, month = 1, day = 1, mtag_date = False\<rparr>)) \<and>
   dependent_tag_get ''month''
     [''date'' \<mapsto> PMTagDate \<lparr>year = 1999, month = 1, day = 1, mtag_date = False\<rparr>] =
     Some (Inr (PJ JNone)) \<and>
   tag_get example_world example_parse ''date'' [''date'' \<mapsto> JStr ''1999-05-03''] =
     Some (Inr (PMTagDate \<lparr>year = 1999, month = 5, day = 3, mtag_date = True\<rparr>)) \<and>
   dependent_tag_get ''month''
     [''date'' \<mapsto> PMTagDate \<lparr>year = 1999, month = 5, day = 3, mtag_date = True\<rparr>] =
     Some (Inr (PJ (JInt 5)))"
proof -
  have p: "example_parse (JStr ''1999-05-03'') = Inr (1999, 5, 3)"
    by (simp add: example_parse_def)
  from date_precision [of example_parse example_world "[''date'' \<mapsto> JStr ''1999'']"
      "[''date'' \<mapsto> PMTagDate \<lparr>year = 1999, month = 1, day = 1, mtag_date = False\<rparr>]"]
    date_precision [of example_parse example_world "[''date'' \<mapsto> JStr ''1999-05-03'']"
      "[''date'' \<mapsto> PMTagDate \<lparr>year = 1999, month = 5, day = 3, mtag_date = True\<rparr>]"]
    p
  show ?thesis by simp
qed

section \<open>Lists in yielded tag sets\<close>

text \<open>
  Claim C10. No key of a yielded tag set has the value \<^verbatim>\<open>[]\<close>, so
  \<^verbatim>\<open>ListConverter\<close> never fails with \<^verbatim>\<open>IndexError\<close> on it: for every list of
  aliases the result is \<^verbatim>\<open>None\<close> when no alias is a key, the first element of the
  value when the value of the first alias found is a list, and the value itself otherwise.
\<close>

theorem yielded_lists_non_empty:
  assumes "Yield p d \<in> set (items n w self)"
  shows "(\<forall>k. d k \<noteq> Some (JList [])) \<and>
         (\<forall>tags. get (decode w parse ListConverter) tags d =
            (case find (\<lambda>t. d t \<noteq> None) tags of
               None \<Rightarrow> Inr (PJ JNone)
             | Some t \<Rightarrow> (case the (d t) of JList xs \<Rightarrow> Inr (PJ (hd xs)) | v \<Rightarrow> Inr (PJ v))))"
proof -
  let ?objs = "load_objs w self"
  from assms obtain i where i: "i < length (items n w self)" "items n w self ! i = Yield p d"
    by (auto simp: in_set_conv_nth)
  then have il: "i < length ?objs"
    and d: "d = (foldl (update_tagset w) Map.empty (take (Suc i) ?objs))(''@'' := None)"
    using items_loop_nth_Yield [of i n w self Map.empty ?objs p d] by (simp_all add: items_def)
  from il have "take (Suc i) ?objs \<noteq> []" by auto
  then have "\<And>k. foldl (update_tagset w) Map.empty (take (Suc i) ?objs) k \<noteq> Some (JList [])"
    by (rule foldl_update_tagset_no_empty_list)
  then have ne: "d k \<noteq> Some (JList [])" for k unfolding d by simp
  have "get (decode w parse ListConverter) tags d =
            (case find (\<lambda>t. d t \<noteq> None) tags of
               None \<Rightarrow> Inr (PJ JNone)
             | Some t \<Rightarrow> (case the (d t) of JList xs \<Rightarrow> Inr (PJ (hd xs)) | v \<Rightarrow> Inr (PJ v)))" for tags
  proof (cases "find (\<lambda>t. d t \<noteq> None) tags")
    case None
    then show ?thesis by (simp add: get_find)
  next
    case (Some t)
    then have "d t \<noteq> None" by (auto simp: find_Some_iff)
    then obtain v where v: "d t = Some v" by blast
    with ne [of t] have "v \<noteq> JList []" by auto
    with Some v show ?thesis
      by (auto simp add: get_find split: jval.splits list.splits)
  qed
  with ne show ?thesis by blast
qed

theorem yielded_lists_non_empty_witness:
  "\<exists>p d. Yield p d \<in> set (items (Suc 0) example_world ''/m/a.tags'') \<and>
     d ''genre'' = Some (JList [JStr ''rock'']) \<and>
     get (decode example_world example_parse ListConverter) [''genres'', ''genre''] d =
       Inr (PJ (JStr ''rock''))"
proof -
  let ?e1 = "[(''@'', JStr ''t1.flac''), (''track'', JStr ''1''), (''Genre'', JList [JStr ''rock''])]"
  let ?d' = "(update_tagset example_world Map.empty ?e1)(''@'' := None)"
  have m: "Yield ''/m/t1.flac'' ?d' \<in> set (items (Suc 0) example_world ''/m/a.tags'')"
    by (simp add: a_tags_events)
  have u: "update_tagset example_world Map.empty ?e1 ''genre'' = Some (JList [JStr ''rock''])"
    "update_tagset example_world Map.empty ?e1 ''genres'' = None"
    by (simp_all add: example_simps)
  from yielded_lists_non_empty [OF m, of example_parse]
  have "get (decode example_world example_parse ListConverter) [''genres'', ''genre''] ?d' =
      Inr (PJ (JStr ''rock''))"
    by (simp add: u)
  moreover have "?d' ''genre'' = Some (JList [JStr ''rock''])" by (simp add: u)
  ultimately show ?thesis using m by blast
qed

section \<open>Indexed references\<close>

text \<open>
  Claim C3. The code does not keep the round trip. \<^verbatim>\<open>items\<close> yields the resolved
  path of an entry, not its reference, and \<^verbatim>\<open>_resolve_path\<close> resolves that path a
  second time. In the directory \<^verbatim>\<open>/m|x\<close> the file \<^verbatim>\<open>a.tags\<close> yields one entry,
  whose reference \<^verbatim>\<open>t.flac\<close> resolves to \<^verbatim>\<open>/m|x/t.flac\<close>; resolving
  \<^verbatim>\<open>a.tags|1\<close> from \<^verbatim>\<open>/m|x/b.tags\<close> splits that path at its \<^verbatim>\<open>|\<close> and raises
  \<^verbatim>\<open>NotImplementedError\<close>, so the entry of \<^verbatim>\<open>b.tags\<close> is skipped.
\<close>

theorem indexed_reference_resolved_twice:
  "map fst (yielded (items (Suc 0) example_world ''/m|x/a.tags'')) = [''/m|x/t.flac''] \<and>
   resolve_path (Suc 0) example_world ''/m|x/a.tags'' ''t.flac'' = Some (Inr ''/m|x/t.flac'') \<and>
   resolve_path (Suc (Suc 0)) example_world ''/m|x/b.tags'' ''a.tags|1'' =
     Some (Inl NotImplementedError) \<and>
   map fst (yielded (items (Suc (Suc 0)) example_world ''/m|x/b.tags'')) = [''/m|x/u.flac'']"
  by (simp add: example_simps)

end
